theory Spec2Isabelle
  imports Complex_Main "HOL-Library.Char_ord" "HOL-Library.List_Lexorder" "HOL-Library.Multiset"
    "HOL-Library.Log_Nat"
begin

section \<open>Skill extraction and matching (backend/utils/skill_matcher.py)\<close>

text \<open>
  Python strings are modelled as \<^typ>\<open>string\<close>: a list of characters with code points
  0 to 255, the Latin-1 range of \<open>str\<close>. Strings are compared by code point, character
  after character, a proper prefix being smaller: the order of \<open>Char_ord\<close> lifted by
  \<open>List_Lexorder\<close>, which is the order Python's \<open>sorted\<close> uses on \<open>str\<close>.
\<close>

subsection \<open>Characters: \<open>str.lower\<close>, \<open>\w\<close> and \<open>\s\<close>\<close>

definition cp :: "char \<Rightarrow> nat" where
  "cp c = of_char c"

text \<open>\<open>\w\<close> of a \<open>str\<close> pattern: alphanumeric (letters, digits, other numerics) or underscore.\<close>

definition is_word_char :: "char \<Rightarrow> bool" where
  "is_word_char c = (let n = cp c in
     (48 \<le> n \<and> n \<le> 57) \<or> (65 \<le> n \<and> n \<le> 90) \<or> n = 95 \<or> (97 \<le> n \<and> n \<le> 122) \<or>
     n = 170 \<or> n = 178 \<or> n = 179 \<or> n = 181 \<or> n = 185 \<or> n = 186 \<or>
     (188 \<le> n \<and> n \<le> 190) \<or> (192 \<le> n \<and> n \<le> 214) \<or> (216 \<le> n \<and> n \<le> 246) \<or>
     248 \<le> n)"

text \<open>\<open>\s\<close> of a \<open>str\<close> pattern.\<close>

definition is_space_char :: "char \<Rightarrow> bool" where
  "is_space_char c = (let n = cp c in
     (9 \<le> n \<and> n \<le> 13) \<or> (28 \<le> n \<and> n \<le> 32) \<or> n = 133 \<or> n = 160)"

text \<open>\<open>str.lower\<close>, one character at a time: A to Z and the capital letters of Latin-1.\<close>

definition lower_char :: "char \<Rightarrow> char" where
  "lower_char c = (let n = cp c in
     if (65 \<le> n \<and> n \<le> 90) \<or> (192 \<le> n \<and> n \<le> 214) \<or> (216 \<le> n \<and> n \<le> 222)
     then char_of (n + 32) else c)"

definition lower :: "string \<Rightarrow> string" where
  "lower s = map lower_char s"

subsection \<open>The pattern \<open>\b\<close> + \<open>re.escape(p)\<close> + \<open>\b\<close>\<close>

text \<open>
  \<open>re.escape\<close> makes the pattern match \<open>p\<close> literally. \<open>\b\<close> holds at a position
  when exactly one of the characters before and after it is a word character, a missing
  character (start or end of the text) counting as a non-word character. The search scans
  the text from left to right; \<open>prev\<close> is the character before the current position.
\<close>

definition word_opt :: "char option \<Rightarrow> bool" where
  "word_opt c = (case c of None \<Rightarrow> False | Some x \<Rightarrow> is_word_char x)"

definition next_char :: "string \<Rightarrow> char option" where
  "next_char txt = (case txt of [] \<Rightarrow> None | c # _ \<Rightarrow> Some c)"

definition boundary :: "char option \<Rightarrow> string \<Rightarrow> bool" where
  "boundary prev txt = (word_opt prev \<noteq> word_opt (next_char txt))"

fun match_literal :: "string \<Rightarrow> char option \<Rightarrow> string \<Rightarrow> (char option \<times> string) option" where
  "match_literal [] prev txt = Some (prev, txt)"
| "match_literal (p # ps) prev [] = None"
| "match_literal (p # ps) prev (c # cs) = (if p = c then match_literal ps (Some c) cs else None)"

definition match_here :: "string \<Rightarrow> char option \<Rightarrow> string \<Rightarrow> bool" where
  "match_here p prev txt =
     (boundary prev txt \<and>
      (case match_literal p prev txt of None \<Rightarrow> False | Some (prev', rest) \<Rightarrow> boundary prev' rest))"

fun search_from :: "string \<Rightarrow> char option \<Rightarrow> string \<Rightarrow> bool" where
  "search_from p prev [] = match_here p prev []"
| "search_from p prev (c # cs) = (match_here p prev (c # cs) \<or> search_from p (Some c) cs)"

text \<open>\<open>re.search(r'\b' + re.escape(p) + r'\b', txt)\<close> finds a match.\<close>

definition re_search_word :: "string \<Rightarrow> string \<Rightarrow> bool" where
  "re_search_word p txt = search_from p None txt"

subsection \<open>The skill catalog\<close>

definition SKILLS_DATABASE :: "string list" where
  "SKILLS_DATABASE = [
  ''Python'', ''JavaScript'', ''Java'', ''C++'', ''C#'', ''TypeScript'', ''Ruby'', ''PHP'',
  ''Swift'', ''Kotlin'', ''Go'', ''Rust'', ''Scala'', ''R'', ''MATLAB'', ''Perl'',
  ''Objective-C'', ''Dart'', ''Groovy'', ''Elixir'', ''Haskell'', ''Lua'', ''C'',
  ''React'', ''React.js'', ''Angular'', ''Vue.js'', ''Vue'', ''Svelte'', ''jQuery'',
  ''HTML'', ''HTML5'', ''CSS'', ''CSS3'', ''SASS'', ''SCSS'', ''Less'', ''Bootstrap'',
  ''Tailwind CSS'', ''Material UI'', ''Chakra UI'', ''Next.js'', ''Nuxt.js'', ''Gatsby'',
  ''Webpack'', ''Vite'', ''Babel'', ''Redux'', ''MobX'', ''Zustand'', ''Node.js'',
  ''Express.js'', ''Express'', ''Django'', ''Flask'', ''FastAPI'', ''Spring Boot'',
  ''Spring'', ''ASP.NET'', ''.NET'', ''Laravel'', ''Ruby on Rails'', ''Rails'',
  ''Symfony'', ''NestJS'', ''Fastify'', ''Koa'', ''Hapi'', ''PostgreSQL'', ''MySQL'',
  ''SQL Server'', ''Oracle'', ''MariaDB'', ''SQLite'', ''SQL'', ''T-SQL'', ''PL/SQL'',
  ''MongoDB'', ''Redis'', ''Cassandra'', ''DynamoDB'', ''Couchbase'', ''Neo4j'',
  ''Firebase'', ''Firestore'', ''Elasticsearch'', ''CouchDB'', ''AWS'',
  ''Amazon Web Services'', ''Azure'', ''Microsoft Azure'', ''Google Cloud'', ''GCP'',
  ''Google Cloud Platform'', ''DigitalOcean'', ''Heroku'', ''Vercel'', ''Netlify'',
  ''Oracle Cloud'', ''IBM Cloud'', ''Alibaba Cloud'', ''EC2'', ''S3'', ''Lambda'', ''RDS'',
  ''DynamoDB'', ''CloudFront'', ''Route 53'', ''ECS'', ''EKS'', ''Elastic Beanstalk'',
  ''CloudWatch'', ''SNS'', ''SQS'', ''Docker'', ''Kubernetes'', ''Jenkins'', ''GitLab CI'',
  ''GitHub Actions'', ''CircleCI'', ''Travis CI'', ''Terraform'', ''Ansible'', ''Chef'',
  ''Puppet'', ''Vagrant'', ''CI/CD'', ''Continuous Integration'',
  ''Continuous Deployment'', ''Git'', ''GitHub'', ''GitLab'', ''Bitbucket'', ''SVN'',
  ''Mercurial'', ''Jest'', ''Mocha'', ''Chai'', ''Pytest'', ''JUnit'', ''TestNG'',
  ''Selenium'', ''Cypress'', ''Playwright'', ''Puppeteer'', ''JMeter'', ''Postman'',
  ''Insomnia'', ''REST API'', ''RESTful'', ''GraphQL'', ''gRPC'', ''WebSocket'',
  ''Microservices'', ''Monolithic'', ''API Gateway'', ''Swagger'', ''OpenAPI'', ''SOAP'',
  ''Android'', ''iOS'', ''React Native'', ''Flutter'', ''Xamarin'', ''Ionic'',
  ''Swift UI'', ''Jetpack Compose'', ''Cordova'', ''Machine Learning'', ''Deep Learning'',
  ''TensorFlow'', ''PyTorch'', ''Keras'', ''Scikit-learn'', ''Pandas'', ''NumPy'',
  ''SciPy'', ''Matplotlib'', ''Seaborn'', ''Data Analysis'', ''Data Science'', ''NLP'',
  ''Natural Language Processing'', ''Computer Vision'', ''OpenCV'', ''NLTK'', ''spaCy'',
  ''Hugging Face'', ''Apache Spark'', ''Hadoop'', ''Kafka'', ''Airflow'', ''Databricks'',
  ''Snowflake'', ''BigQuery'', ''Redshift'', ''ETL'', ''Data Pipeline'',
  ''Data Warehouse'', ''Jira'', ''Confluence'', ''Trello'', ''Asana'', ''Monday.com'',
  ''Notion'', ''ClickUp'', ''Linear'', ''Basecamp'', ''Agile'', ''Scrum'', ''Kanban'',
  ''Waterfall'', ''DevOps'', ''TDD'', ''Test-Driven Development'', ''BDD'',
  ''Behavior-Driven Development'', ''Pair Programming'', ''Code Review'',
  ''Continuous Learning'', ''Leadership'', ''Communication'', ''Team Management'',
  ''Problem Solving'', ''Critical Thinking'', ''Time Management'', ''Project Management'',
  ''Collaboration'', ''Mentoring'', ''Public Speaking'', ''Technical Writing'',
  ''Analytical Skills'', ''Creativity'', ''Adaptability'', ''Conflict Resolution'',
  ''GraphQL'', ''WebAssembly'', ''Blockchain'', ''Solidity'', ''Ethereum'',
  ''Smart Contracts'', ''Web3'', ''Socket.io'', ''RabbitMQ'', ''Nginx'', ''Apache'',
  ''Linux'', ''Unix'', ''Shell Scripting'', ''Bash'', ''PowerShell'', ''Figma'',
  ''Adobe XD'', ''Sketch'', ''Photoshop'', ''Illustrator'', ''InVision'', ''UI Design'',
  ''UX Design'', ''User Research'', ''Wireframing'', ''Prototyping'', ''OAuth'', ''JWT'',
  ''Authentication'', ''Authorization'', ''Encryption'', ''SSL'', ''TLS'',
  ''Penetration Testing'', ''Security Audit'', ''OWASP'']"

text \<open>The dict comprehension stores the entries in catalog order, a later one overwriting.\<close>

fun dict_of :: "('a \<Rightarrow> 'k) \<Rightarrow> 'a list \<Rightarrow> ('k \<rightharpoonup> 'a) \<Rightarrow> ('k \<rightharpoonup> 'a)" where
  "dict_of key [] m = m"
| "dict_of key (x # xs) m = dict_of key xs (m(key x \<mapsto> x))"

definition SKILLS_LOOKUP :: "string \<rightharpoonup> string" where
  "SKILLS_LOOKUP = dict_of lower SKILLS_DATABASE Map.empty"

subsection \<open>\<open>extract_skills\<close>\<close>

text \<open>\<open>re.sub(r'[^\w\s.\-+#]', ' ', text_lower)\<close>, one character at a time.\<close>

definition normalize_char :: "char \<Rightarrow> char" where
  "normalize_char c =
     (if is_word_char c \<or> is_space_char c \<or> c = CHR ''.'' \<or> c = CHR ''-'' \<or> c = CHR ''+'' \<or> c = CHR ''#''
      then c else CHR '' '')"

definition text_normalized :: "string \<Rightarrow> string" where
  "text_normalized text = map normalize_char (lower text)"

text \<open>\<open>skill_lower.split('.')[0]\<close>: the part before the first dot.\<close>

definition base_skill :: "string \<Rightarrow> string" where
  "base_skill skill_lower = takeWhile (\<lambda>c. c \<noteq> CHR ''.'') skill_lower"

text \<open>The body of the loop: whether \<open>skill\<close> is added to \<open>found_skills\<close>.\<close>

definition skill_found :: "string \<Rightarrow> string \<Rightarrow> bool" where
  "skill_found tn skill =
     (let skill_lower = lower skill in
      if re_search_word skill_lower tn then True
      else if CHR ''.'' \<in> set skill_lower then re_search_word (base_skill skill_lower) tn
      else False)"

fun extract_loop :: "string \<Rightarrow> string list \<Rightarrow> string set \<Rightarrow> string set" where
  "extract_loop tn [] found_skills = found_skills"
| "extract_loop tn (skill # rest) found_skills =
     extract_loop tn rest (if skill_found tn skill then insert skill found_skills else found_skills)"

text \<open>The argument is \<open>None\<close> or a string; \<open>not text\<close> holds for \<open>None\<close> and for the empty string.\<close>

definition extract_skills :: "string option \<Rightarrow> string list" where
  "extract_skills text =
     (case text of
        None \<Rightarrow> []
      | Some t \<Rightarrow>
          if t = [] then []
          else sorted_list_of_set (extract_loop (text_normalized t) SKILLS_DATABASE {}))"

subsection \<open>Floating-point arithmetic\<close>

text \<open>
  A Python \<open>float\<close> is an IEEE 754 binary64 number. A finite one is modelled by its exact
  value, a rational number. An operation computes the exact result and rounds it to the
  nearest binary64 number, a tie going to the even significand. The significand has 53
  bits; the exponent of the last bit is at least -1074 (subnormal numbers). No value
  computed by \<open>calculate_match\<close> exceeds 100, so overflow is not modelled.
\<close>

definition pow2 :: "int \<Rightarrow> rat" where
  "pow2 e = (if 0 \<le> e then 2 ^ nat e else 1 / 2 ^ nat (- e))"

text \<open>The integer \<open>e\<close> with \<open>2 ^ e \<le> x < 2 ^ (e + 1)\<close>, for positive \<open>x\<close>.\<close>

definition floor_log2 :: "rat \<Rightarrow> int" where
  "floor_log2 x =
     (let (p, q) = quotient_of x; d = bitlen p - bitlen q
      in if pow2 d \<le> x then d else d - 1)"

definition round_half_even :: "rat \<Rightarrow> int" where
  "round_half_even x =
     (let f = \<lfloor>x\<rfloor>; r = x - of_int f
      in if r < 1 / 2 then f else if 1 / 2 < r then f + 1 else if even f then f else f + 1)"

definition binary64 :: "rat \<Rightarrow> rat" where
  "binary64 x =
     (if x = 0 then 0
      else let e = max (floor_log2 \<bar>x\<bar>) (- 1022) - 52
           in of_int (round_half_even (x / pow2 e)) * pow2 e)"

datatype py_error = KeyError string | ZeroDivisionError

text \<open>\<open>a / b\<close> on two \<open>int\<close>s: the correctly rounded quotient.\<close>

definition true_div :: "nat \<Rightarrow> nat \<Rightarrow> py_error + rat" where
  "true_div a b = (if b = 0 then Inl ZeroDivisionError else Inr (binary64 (of_nat a / of_nat b)))"

definition float_mul :: "rat \<Rightarrow> rat \<Rightarrow> rat" where
  "float_mul x y = binary64 (x * y)"

text \<open>
  \<open>round(x, 2)\<close>: the exact value of \<open>x\<close> is rounded to two decimals, a tie going to the
  even digit, and the decimal is read back as a \<open>float\<close>.
\<close>

definition py_round2 :: "rat \<Rightarrow> rat" where
  "py_round2 x = binary64 (of_int (round_half_even (x * 100)) / 100)"

subsection \<open>\<open>calculate_match\<close>\<close>

record match_result =
  score :: rat
  matched_skills :: "string list"
  missing_skills :: "string list"
  total_jd_skills :: nat
  total_matched :: nat

text \<open>\<open>[m[k] for k in ks]\<close>; a missing key raises \<open>KeyError\<close>.\<close>

fun lookup_all :: "(string \<rightharpoonup> string) \<Rightarrow> string list \<Rightarrow> py_error + string list" where
  "lookup_all m [] = Inr []"
| "lookup_all m (k # ks) =
     (case m k of
        None \<Rightarrow> Inl (KeyError k)
      | Some v \<Rightarrow> (case lookup_all m ks of Inl e \<Rightarrow> Inl e | Inr vs \<Rightarrow> Inr (v # vs)))"

text \<open>
  The score before rounding. The division is guarded by the test on \<open>len(jd_skills)\<close>.
\<close>

definition raw_score :: "nat \<Rightarrow> nat \<Rightarrow> py_error + rat" where
  "raw_score n_matched n_jd =
     (if n_jd = 0 then Inr 0
      else case true_div n_matched n_jd of Inl e \<Rightarrow> Inl e | Inr d \<Rightarrow> Inr (float_mul d 100))"

text \<open>
  The two comprehensions walk a Python set, whose order is not specified; the model walks
  it in increasing order. Both lists are sorted before they are returned, so the order of
  the walk does not show in the result (lemma \<open>lookup_all_sort_cong\<close> below).
\<close>

definition calculate_match :: "string list \<Rightarrow> string list \<Rightarrow> py_error + match_result" where
  "calculate_match resume_skills jd_skills =
     (let resume_set = set (map lower resume_skills);
          jd_set = set (map lower jd_skills);
          matched_lower = jd_set \<inter> resume_set;
          missing_lower = jd_set - resume_set
      in case raw_score (card matched_lower) (length jd_skills) of
           Inl e \<Rightarrow> Inl e
         | Inr score_raw \<Rightarrow>
             let jd_skill_map = dict_of lower jd_skills Map.empty
             in case lookup_all jd_skill_map (sorted_list_of_set matched_lower) of
                  Inl e \<Rightarrow> Inl e
                | Inr matched \<Rightarrow>
                    (case lookup_all jd_skill_map (sorted_list_of_set missing_lower) of
                       Inl e \<Rightarrow> Inl e
                     | Inr missing \<Rightarrow>
                         Inr \<lparr>score = py_round2 score_raw,
                              matched_skills = sort matched,
                              missing_skills = sort missing,
                              total_jd_skills = length jd_skills,
                              total_matched = length matched\<rparr>))"

subsection \<open>\<open>get_skill_suggestions\<close>\<close>

definition skill_categories :: "(string \<times> string list) list" where
  "skill_categories =
     [(''frontend'', [''React'', ''Angular'', ''Vue.js'', ''HTML'', ''CSS'', ''JavaScript'', ''TypeScript'']),
      (''backend'', [''Node.js'', ''Python'', ''Java'', ''Django'', ''Flask'', ''Spring Boot'']),
      (''database'', [''MongoDB'', ''PostgreSQL'', ''MySQL'', ''Redis'']),
      (''cloud'', [''AWS'', ''Azure'', ''Google Cloud'', ''Docker'', ''Kubernetes''])]"

text \<open>The inner loop over the categories, left at the first category that has the skill.\<close>

fun find_category :: "string \<Rightarrow> (string \<times> string list) list \<Rightarrow> string option" where
  "find_category skill_lower [] = None"
| "find_category skill_lower ((cat_name, cat_skills) # rest) =
     (if list_ex (\<lambda>s. skill_lower = lower s) cat_skills then Some cat_name
      else find_category skill_lower rest)"

text \<open>\<open>if category\<close>: neither \<open>None\<close> nor the empty string.\<close>

definition truthy :: "string option \<Rightarrow> bool" where
  "truthy category = (case category of None \<Rightarrow> False | Some name \<Rightarrow> name \<noteq> [])"

definition suggestion :: "string \<Rightarrow> string" where
  "suggestion skill =
     (let skill_lower = lower skill;
          category = find_category skill_lower skill_categories
      in if truthy category then ''Learn '' @ skill @ '' through online courses or projects''
         else ''Consider gaining experience with '' @ skill)"

fun suggestions_loop :: "string list \<Rightarrow> string list \<Rightarrow> string list" where
  "suggestions_loop [] suggestions = suggestions"
| "suggestions_loop (skill # rest) suggestions =
     suggestions_loop rest (suggestions @ [suggestion skill])"

definition get_skill_suggestions :: "string list \<Rightarrow> string list" where
  "get_skill_suggestions missing = suggestions_loop missing []"

subsection \<open>Notions used to state the properties\<close>

text \<open>The last element of a list whose lowercase form is \<open>k\<close>.\<close>

fun last_spelling :: "string list \<Rightarrow> string \<Rightarrow> string option" where
  "last_spelling [] k = None"
| "last_spelling (x # xs) k =
     (case last_spelling xs k of Some y \<Rightarrow> Some y | None \<Rightarrow> if lower x = k then Some x else None)"

text \<open>
  The string \<open>p\<close> occurs in the text at a place where the character before the occurrence,
  if any, and the character after it, if any, are not word characters.
\<close>

definition isolated_occurrence :: "string \<Rightarrow> string \<Rightarrow> bool" where
  "isolated_occurrence p tx =
     (\<exists>pre post. tx = pre @ p @ post \<and>
        (pre = [] \<or> \<not> is_word_char (last pre)) \<and> (post = [] \<or> \<not> is_word_char (hd post)))"

text \<open>The same, as a scan of the text from left to right (lemma \<open>isolated_occurrence_code\<close>).\<close>

definition isolated_here :: "string \<Rightarrow> char option \<Rightarrow> string \<Rightarrow> bool" where
  "isolated_here p prev tx =
     (\<not> word_opt prev \<and>
      (case match_literal p prev tx of None \<Rightarrow> False | Some (q, rest) \<Rightarrow> \<not> word_opt (next_char rest)))"

fun isolated_from :: "string \<Rightarrow> char option \<Rightarrow> string \<Rightarrow> bool" where
  "isolated_from p prev [] = isolated_here p prev []"
| "isolated_from p prev (c # cs) = (isolated_here p prev (c # cs) \<or> isolated_from p (Some c) cs)"

text \<open>The first and the last character of \<open>p\<close> are word characters.\<close>

definition word_edged :: "string \<Rightarrow> bool" where
  "word_edged p = (p \<noteq> [] \<and> is_word_char (hd p) \<and> is_word_char (last p))"

text \<open>The character before the position that follows \<open>xs\<close>.\<close>

definition last_or :: "char option \<Rightarrow> string \<Rightarrow> char option" where
  "last_or prev xs = (if xs = [] then prev else Some (last xs))"

text \<open>
  A number computed from a string, used to tell the lowercase catalog entries apart
  without comparing every pair of strings.
\<close>

fun str_code :: "string \<Rightarrow> nat" where
  "str_code [] = 0"
| "str_code (c # cs) = (cp c + 31 * str_code cs) mod 1000003"

text \<open>
  The catalog without its entries 105 and 235, which repeat the entries 80
  (\<open>DynamoDB\<close>) and 150 (\<open>GraphQL\<close>).
\<close>

definition catalog_once :: "string list" where
  "catalog_once =
     take 105 SKILLS_DATABASE @ take 129 (drop 106 SKILLS_DATABASE) @ drop 236 SKILLS_DATABASE"


section \<open>Properties\<close>

subsection \<open>Characters\<close>

lemma cp_char_of: "n < 256 \<Longrightarrow> cp (char_of n) = n"
  by (simp add: cp_def)

lemma cp_lt: "cp c < 256"
  by (simp add: cp_def)

lemma is_word_lower_char: "is_word_char (lower_char c) = is_word_char c"
proof -
  have "cp c < 256" by (rule cp_lt)
  then show ?thesis
    unfolding lower_char_def Let_def
    by (auto simp: is_word_char_def Let_def cp_char_of)
qed

lemma lower_char_dot: "lower_char c = CHR ''.'' \<longleftrightarrow> c = CHR ''.''"
proof
  assume h: "lower_char c = CHR ''.''"
  have lt: "cp c < 256" by (rule cp_lt)
  show "c = CHR ''.''"
  proof (rule ccontr)
    assume ne: "c \<noteq> CHR ''.''"
    with h have up: "(65 \<le> cp c \<and> cp c \<le> 90) \<or> (192 \<le> cp c \<and> cp c \<le> 214) \<or> (216 \<le> cp c \<and> cp c \<le> 222)"
      and eq: "char_of (cp c + 32) = CHR ''.''"
      by (auto simp: lower_char_def Let_def split: if_splits)
    from eq have "cp (char_of (cp c + 32)) = cp (CHR ''.'')" by simp
    with up lt show False by (auto simp: cp_char_of) (simp_all add: cp_def)
  qed
next
  assume "c = CHR ''.''"
  then show "lower_char c = CHR ''.''" by (simp add: lower_char_def cp_def)
qed

lemma dot_in_lower: "CHR ''.'' \<in> set (lower s) \<longleftrightarrow> CHR ''.'' \<in> set s"
proof -
  have "\<And>c. (CHR ''.'' = lower_char c) = (c = CHR ''.'')"
    using lower_char_dot by (metis (full_types))
  then show ?thesis by (auto simp: lower_def image_iff)
qed

text \<open>The functions on the characters that occur in the catalog.\<close>

lemma lower_char_table: "lower_char CHR '' '' = CHR '' ''" "lower_char CHR ''#'' = CHR ''#''" "lower_char CHR ''+'' = CHR ''+''" "lower_char CHR ''-'' = CHR ''-''" "lower_char CHR ''.'' = CHR ''.''" "lower_char CHR ''/'' = CHR ''/''" "lower_char CHR ''2'' = CHR ''2''" "lower_char CHR ''3'' = CHR ''3''" "lower_char CHR ''4'' = CHR ''4''" "lower_char CHR ''5'' = CHR ''5''" "lower_char CHR ''A'' = CHR ''a''" "lower_char CHR ''B'' = CHR ''b''" "lower_char CHR ''C'' = CHR ''c''" "lower_char CHR ''D'' = CHR ''d''" "lower_char CHR ''E'' = CHR ''e''" "lower_char CHR ''F'' = CHR ''f''" "lower_char CHR ''G'' = CHR ''g''" "lower_char CHR ''H'' = CHR ''h''" "lower_char CHR ''I'' = CHR ''i''" "lower_char CHR ''J'' = CHR ''j''" "lower_char CHR ''K'' = CHR ''k''" "lower_char CHR ''L'' = CHR ''l''" "lower_char CHR ''M'' = CHR ''m''" "lower_char CHR ''N'' = CHR ''n''" "lower_char CHR ''O'' = CHR ''o''" "lower_char CHR ''P'' = CHR ''p''" "lower_char CHR ''Q'' = CHR ''q''" "lower_char CHR ''R'' = CHR ''r''" "lower_char CHR ''S'' = CHR ''s''" "lower_char CHR ''T'' = CHR ''t''" "lower_char CHR ''U'' = CHR ''u''" "lower_char CHR ''V'' = CHR ''v''" "lower_char CHR ''W'' = CHR ''w''" "lower_char CHR ''X'' = CHR ''x''" "lower_char CHR ''Z'' = CHR ''z''" "lower_char CHR ''a'' = CHR ''a''" "lower_char CHR ''b'' = CHR ''b''" "lower_char CHR ''c'' = CHR ''c''" "lower_char CHR ''d'' = CHR ''d''" "lower_char CHR ''e'' = CHR ''e''" "lower_char CHR ''f'' = CHR ''f''" "lower_char CHR ''g'' = CHR ''g''" "lower_char CHR ''h'' = CHR ''h''" "lower_char CHR ''i'' = CHR ''i''" "lower_char CHR ''j'' = CHR ''j''" "lower_char CHR ''k'' = CHR ''k''" "lower_char CHR ''l'' = CHR ''l''" "lower_char CHR ''m'' = CHR ''m''" "lower_char CHR ''n'' = CHR ''n''" "lower_char CHR ''o'' = CHR ''o''" "lower_char CHR ''p'' = CHR ''p''" "lower_char CHR ''r'' = CHR ''r''" "lower_char CHR ''s'' = CHR ''s''" "lower_char CHR ''t'' = CHR ''t''" "lower_char CHR ''u'' = CHR ''u''" "lower_char CHR ''v'' = CHR ''v''" "lower_char CHR ''w'' = CHR ''w''" "lower_char CHR ''x'' = CHR ''x''" "lower_char CHR ''y'' = CHR ''y''" "lower_char CHR ''z'' = CHR ''z''"
  by code_simp+

lemma cp_table: "cp CHR '' '' = 32" "cp CHR ''#'' = 35" "cp CHR ''+'' = 43" "cp CHR ''-'' = 45" "cp CHR ''.'' = 46" "cp CHR ''/'' = 47" "cp CHR ''2'' = 50" "cp CHR ''3'' = 51" "cp CHR ''4'' = 52" "cp CHR ''5'' = 53" "cp CHR ''a'' = 97" "cp CHR ''b'' = 98" "cp CHR ''c'' = 99" "cp CHR ''d'' = 100" "cp CHR ''e'' = 101" "cp CHR ''f'' = 102" "cp CHR ''g'' = 103" "cp CHR ''h'' = 104" "cp CHR ''i'' = 105" "cp CHR ''j'' = 106" "cp CHR ''k'' = 107" "cp CHR ''l'' = 108" "cp CHR ''m'' = 109" "cp CHR ''n'' = 110" "cp CHR ''o'' = 111" "cp CHR ''p'' = 112" "cp CHR ''q'' = 113" "cp CHR ''r'' = 114" "cp CHR ''s'' = 115" "cp CHR ''t'' = 116" "cp CHR ''u'' = 117" "cp CHR ''v'' = 118" "cp CHR ''w'' = 119" "cp CHR ''x'' = 120" "cp CHR ''y'' = 121" "cp CHR ''z'' = 122"
  by code_simp+

lemma is_word_char_table: "\<not> is_word_char CHR '' ''" "\<not> is_word_char CHR ''#''" "\<not> is_word_char CHR ''+''" "\<not> is_word_char CHR ''-''" "\<not> is_word_char CHR ''.''" "\<not> is_word_char CHR ''/''" "is_word_char CHR ''2''" "is_word_char CHR ''3''" "is_word_char CHR ''4''" "is_word_char CHR ''5''" "is_word_char CHR ''A''" "is_word_char CHR ''B''" "is_word_char CHR ''C''" "is_word_char CHR ''D''" "is_word_char CHR ''E''" "is_word_char CHR ''F''" "is_word_char CHR ''G''" "is_word_char CHR ''H''" "is_word_char CHR ''I''" "is_word_char CHR ''J''" "is_word_char CHR ''K''" "is_word_char CHR ''L''" "is_word_char CHR ''M''" "is_word_char CHR ''N''" "is_word_char CHR ''O''" "is_word_char CHR ''P''" "is_word_char CHR ''Q''" "is_word_char CHR ''R''" "is_word_char CHR ''S''" "is_word_char CHR ''T''" "is_word_char CHR ''U''" "is_word_char CHR ''V''" "is_word_char CHR ''W''" "is_word_char CHR ''X''" "is_word_char CHR ''Z''" "is_word_char CHR ''a''" "is_word_char CHR ''b''" "is_word_char CHR ''c''" "is_word_char CHR ''d''" "is_word_char CHR ''e''" "is_word_char CHR ''f''" "is_word_char CHR ''g''" "is_word_char CHR ''h''" "is_word_char CHR ''i''" "is_word_char CHR ''j''" "is_word_char CHR ''k''" "is_word_char CHR ''l''" "is_word_char CHR ''m''" "is_word_char CHR ''n''" "is_word_char CHR ''o''" "is_word_char CHR ''p''" "is_word_char CHR ''r''" "is_word_char CHR ''s''" "is_word_char CHR ''t''" "is_word_char CHR ''u''" "is_word_char CHR ''v''" "is_word_char CHR ''w''" "is_word_char CHR ''x''" "is_word_char CHR ''y''" "is_word_char CHR ''z''"
  by code_simp+


subsection \<open>\<open>extract_skills\<close>: which skills are reported\<close>

lemma extract_loop_set:
  "extract_loop tn xs found = found \<union> {s \<in> set xs. skill_found tn s}"
  by (induction xs arbitrary: found) auto

lemma extract_loop_finite: "finite found \<Longrightarrow> finite (extract_loop tn xs found)"
  by (simp add: extract_loop_set)

lemma set_extract_skills:
  "set (extract_skills (Some t)) =
     (if t = [] then {} else {s \<in> set SKILLS_DATABASE. skill_found (text_normalized t) s})"
  by (simp add: extract_skills_def extract_loop_set)

lemma in_extract_skills:
  "s \<in> set (extract_skills (Some t)) \<longleftrightarrow>
     t \<noteq> [] \<and> s \<in> set SKILLS_DATABASE \<and> skill_found (text_normalized t) s"
  by (simp add: set_extract_skills)

lemma sorted_extract_skills: "sorted (extract_skills text)" and distinct_extract_skills: "distinct (extract_skills text)"
  by (auto simp: extract_skills_def split: option.splits)

lemma search_from_Nil_txt: "\<not> search_from p prev [] \<longleftrightarrow> \<not> (word_opt prev \<and> p = [])"
  by (cases p) (auto simp: match_here_def boundary_def next_char_def word_opt_def)



lemma search_from_empty_pattern:
  "\<not> word_opt prev \<Longrightarrow> \<exists>c \<in> set tx. is_word_char c \<Longrightarrow> search_from [] prev tx"
proof (induction tx arbitrary: prev)
  case Nil
  then show ?case by simp
next
  case (Cons c cs)
  show ?case
  proof (cases "is_word_char c")
    case True
    with Cons.prems(1) have "match_here [] prev (c # cs)"
      by (simp add: match_here_def boundary_def next_char_def word_opt_def)
    then show ?thesis by simp
  next
    case False
    then have "\<not> word_opt (Some c)" by (simp add: word_opt_def)
    moreover from False Cons.prems(2) have "\<exists>x \<in> set cs. is_word_char x" by auto
    ultimately have "search_from [] (Some c) cs" by (rule Cons.IH)
    then show ?thesis by simp
  qed
qed

lemma is_word_normalize_char: "is_word_char c \<Longrightarrow> normalize_char c = c"
  by (simp add: normalize_char_def)

lemma word_char_text_normalized:
  assumes "\<exists>c \<in> set t. is_word_char c"
  shows "\<exists>c \<in> set (text_normalized t). is_word_char c"
proof -
  from assms obtain c where c: "c \<in> set t" "is_word_char c" by blast
  then have "is_word_char (lower_char c)" by (simp add: is_word_lower_char)
  then have "normalize_char (lower_char c) = lower_char c" by (rule is_word_normalize_char)
  with c have "lower_char c \<in> set (text_normalized t)"
    by (force simp: text_normalized_def lower_def image_iff)
  with \<open>is_word_char (lower_char c)\<close> show ?thesis by blast
qed

lemma re_search_word_Nil: "\<not> re_search_word p []"
  by (cases p) (simp_all add: re_search_word_def match_here_def boundary_def next_char_def word_opt_def)

lemma text_normalized_Nil: "text_normalized [] = []"
  by (simp add: text_normalized_def lower_def)

lemma dotnet_in_catalog: "''.NET'' \<in> set SKILLS_DATABASE"
  by (simp add: SKILLS_DATABASE_def)

lemma lower_dotnet: "lower ''.NET'' = ''.net''"
  by code_simp

text \<open>
  Claim C10. The part of \<open>.net\<close> before its first dot is empty, so the second pattern is
  \<open>\b\b\<close>, which matches at the first word character of any text. Hence \<open>".NET"\<close> is
  reported for every text that has a word character.
\<close>

theorem dotnet_reported_for_any_word:
  assumes "\<exists>c \<in> set t. is_word_char c"
  shows "''.NET'' \<in> set (extract_skills (Some t))"
proof -
  from assms have ne: "t \<noteq> []" by auto
  from assms have "\<exists>c \<in> set (text_normalized t). is_word_char c"
    by (rule word_char_text_normalized)
  then have "search_from [] None (text_normalized t)"
    by (intro search_from_empty_pattern) (simp_all add: word_opt_def)
  then have "re_search_word (base_skill ''.net'') (text_normalized t)"
    by (simp add: re_search_word_def base_skill_def)
  then have "skill_found (text_normalized t) ''.NET''"
    by (simp add: skill_found_def lower_dotnet)
  with ne dotnet_in_catalog show ?thesis by (simp add: in_extract_skills)
qed

theorem dotnet_reported_for_any_word_witness:
  "''.NET'' \<in> set (extract_skills (Some ''I love JavaScript''))"
proof -
  have "is_word_char CHR ''I''" by code_simp
  then have "\<exists>c \<in> set ''I love JavaScript''. is_word_char c" by simp
  then show ?thesis by (rule dotnet_reported_for_any_word)
qed

text \<open>
  Claim C8. A catalog entry with a dot is reported whenever the part of its lowercase form
  before the first dot is found by the word-boundary pattern in the normalized text,
  whether or not the dotted form itself occurs.
\<close>

theorem dotted_base_token:
  assumes "s \<in> set SKILLS_DATABASE" and "CHR ''.'' \<in> set s"
    and "re_search_word (base_skill (lower s)) (text_normalized t)"
  shows "s \<in> set (extract_skills (Some t))"
proof -
  from assms(3) have ne: "t \<noteq> []"
    using re_search_word_Nil text_normalized_Nil by metis
  from assms(2) have "CHR ''.'' \<in> set (lower s)" by (simp add: dot_in_lower)
  with assms(3) have "skill_found (text_normalized t) s"
    by (simp add: skill_found_def Let_def)
  with ne assms(1) show ?thesis by (simp add: in_extract_skills)
qed

theorem dotted_base_token_witness:
  "''React.js'' \<in> set SKILLS_DATABASE \<and> CHR ''.'' \<in> set ''React.js'' \<and>
   base_skill (lower ''React.js'') = ''react'' \<and>
   re_search_word ''react'' (text_normalized ''I use React for frontend'') \<and>
   \<not> re_search_word (lower ''React.js'') (text_normalized ''I use React for frontend'') \<and>
   ''React.js'' \<in> set (extract_skills (Some ''I use React for frontend'')) \<and>
   ''React'' \<in> set (extract_skills (Some ''I use React for frontend''))"
proof -
  have a: "''React.js'' \<in> set SKILLS_DATABASE" by (simp add: SKILLS_DATABASE_def)
  have b: "CHR ''.'' \<in> set ''React.js''" by simp
  have c: "base_skill (lower ''React.js'') = ''react''" by code_simp
  have d: "re_search_word ''react'' (text_normalized ''I use React for frontend'')" by code_simp
  have e: "\<not> re_search_word (lower ''React.js'') (text_normalized ''I use React for frontend'')"
    by code_simp
  from d c have d': "re_search_word (base_skill (lower ''React.js'')) (text_normalized ''I use React for frontend'')"
    by simp
  note f = dotted_base_token [OF a b d']
  have "''React'' \<in> set SKILLS_DATABASE" by (simp add: SKILLS_DATABASE_def)
  moreover have "skill_found (text_normalized ''I use React for frontend'') ''React''" by code_simp
  ultimately have g: "''React'' \<in> set (extract_skills (Some ''I use React for frontend''))"
    by (simp add: in_extract_skills)
  from a b c d e f g show ?thesis by (intro conjI)
qed

text \<open>
  Claim C2 at the text "I know C++ well". The pattern for \<open>C++\<close> ends in \<open>\b\<close> after a
  plus sign, which holds only when a word character follows. After the token \<open>C++\<close>
  comes a space, so the pattern does not match and \<open>C++\<close> is not reported; \<open>C\<close> is.
  The same happens for \<open>C#\<close>.
\<close>

theorem cplusplus_token_not_reported:
  "''C++'' \<in> set SKILLS_DATABASE \<and>
   ''C++'' \<notin> set (extract_skills (Some ''I know C++ well'')) \<and>
   ''C'' \<in> set (extract_skills (Some ''I know C++ well'')) \<and>
   ''C#'' \<notin> set (extract_skills (Some ''I know C# well''))"
proof -
  have a: "''C++'' \<in> set SKILLS_DATABASE" by (simp add: SKILLS_DATABASE_def)
  have b: "\<not> skill_found (text_normalized ''I know C++ well'') ''C++''" by code_simp
  have c: "skill_found (text_normalized ''I know C++ well'') ''C''" by code_simp
  have c': "''C'' \<in> set SKILLS_DATABASE" by (simp add: SKILLS_DATABASE_def)
  have d: "\<not> skill_found (text_normalized ''I know C# well'') ''C#''" by code_simp
  from a b c c' d show ?thesis by (simp add: in_extract_skills)
qed

subsection \<open>Word boundaries\<close>

lemma match_literal_iff:
  "match_literal p prev tx = Some (q, rest) \<longleftrightarrow> tx = p @ rest \<and> q = last_or prev p"
proof (induction p arbitrary: prev tx)
  case Nil
  show ?case by (auto simp: last_or_def)
next
  case (Cons a p)
  show ?case
  proof (cases tx)
    case Nil
    then show ?thesis by simp
  next
    case (Cons c cs)
    show ?thesis
    proof (cases "a = c")
      case True
      have "last_or (Some c) p = last_or prev (c # p)" by (simp add: last_or_def)
      with True Cons Cons.IH[of "Some c" cs] show ?thesis by auto
    next
      case False
      with Cons show ?thesis by auto
    qed
  qed
qed

lemma isolated_here_iff:
  "isolated_here p prev tx \<longleftrightarrow>
     \<not> word_opt prev \<and> (\<exists>post. tx = p @ post \<and> \<not> word_opt (next_char post))"
proof (cases "match_literal p prev tx")
  case None
  then have "\<And>post. tx \<noteq> p @ post"
    using match_literal_iff[of p prev tx] by (metis option.distinct(1))
  with None show ?thesis by (simp add: isolated_here_def)
next
  case (Some a)
  obtain q rest where a: "a = (q, rest)" by (cases a)
  with Some have tx: "tx = p @ rest" by (simp add: match_literal_iff)
  from Some a tx show ?thesis by (auto simp: isolated_here_def)
qed

lemma isolated_from_iff:
  "isolated_from p prev tx \<longleftrightarrow>
     (\<exists>pre post. tx = pre @ p @ post \<and> \<not> word_opt (last_or prev pre) \<and> \<not> word_opt (next_char post))"
proof (induction tx arbitrary: prev)
  case Nil
  show ?case by (auto simp: isolated_here_iff last_or_def)
next
  case (Cons c cs)
  have "(\<exists>pre post. c # cs = pre @ p @ post \<and> \<not> word_opt (last_or prev pre) \<and> \<not> word_opt (next_char post))
     \<longleftrightarrow> (\<exists>post. c # cs = p @ post \<and> \<not> word_opt prev \<and> \<not> word_opt (next_char post)) \<or>
         (\<exists>pre' post. cs = pre' @ p @ post \<and> \<not> word_opt (last_or (Some c) pre') \<and> \<not> word_opt (next_char post))"
    (is "?L \<longleftrightarrow> ?A \<or> ?B")
  proof
    assume ?L
    then obtain pre post where h: "c # cs = pre @ p @ post" "\<not> word_opt (last_or prev pre)"
      "\<not> word_opt (next_char post)" by blast
    show "?A \<or> ?B"
    proof (cases pre)
      case Nil
      with h have ?A by (auto simp: last_or_def)
      then show ?thesis ..
    next
      case (Cons a pre')
      with h(1) have "a = c" "cs = pre' @ p @ post" by simp_all
      moreover from Cons \<open>a = c\<close> have "last_or prev pre = last_or (Some c) pre'"
        by (simp add: last_or_def)
      ultimately have ?B using h(2,3) by auto
      then show ?thesis ..
    qed
  next
    assume "?A \<or> ?B"
    then show ?L
    proof
      assume ?A
      then obtain post where "c # cs = [] @ p @ post" "\<not> word_opt (last_or prev [])"
        "\<not> word_opt (next_char post)" by (auto simp: last_or_def)
      then show ?L by blast
    next
      assume ?B
      then obtain pre' post where h: "cs = pre' @ p @ post" "\<not> word_opt (last_or (Some c) pre')"
        "\<not> word_opt (next_char post)" by blast
      have "last_or prev (c # pre') = last_or (Some c) pre'" by (simp add: last_or_def)
      with h have "c # cs = (c # pre') @ p @ post \<and> \<not> word_opt (last_or prev (c # pre')) \<and>
        \<not> word_opt (next_char post)" by simp
      then show ?L by blast
    qed
  qed
  then show ?case using Cons.IH[of "Some c"] by (auto simp: isolated_here_iff)
qed

lemma isolated_occurrence_code: "isolated_occurrence p tx = isolated_from p None tx"
proof -
  have a: "\<not> word_opt (last_or None pre) \<longleftrightarrow> pre = [] \<or> \<not> is_word_char (last pre)" for pre
    by (simp add: last_or_def word_opt_def)
  have b: "\<not> word_opt (next_char post) \<longleftrightarrow> post = [] \<or> \<not> is_word_char (hd post)" for post
    by (cases post) (simp_all add: next_char_def word_opt_def)
  show ?thesis unfolding isolated_occurrence_def isolated_from_iff a b ..
qed

lemma match_here_word_edged:
  assumes "word_edged p"
  shows "match_here p prev tx = isolated_here p prev tx"
proof (cases "match_literal p prev tx")
  case None
  then show ?thesis by (simp add: match_here_def isolated_here_def)
next
  case (Some a)
  obtain q rest where a: "a = (q, rest)" by (cases a)
  from assms have ne: "p \<noteq> []" and hdw: "is_word_char (hd p)" and lw: "is_word_char (last p)"
    by (simp_all add: word_edged_def)
  from Some a have tx: "tx = p @ rest" and q: "q = Some (last p)"
    using ne by (simp_all add: match_literal_iff last_or_def)
  from tx ne have "next_char tx = Some (hd p)" by (cases p) (simp_all add: next_char_def)
  with hdw have b1: "boundary prev tx \<longleftrightarrow> \<not> word_opt prev"
    by (simp add: boundary_def word_opt_def)
  from q lw have b2: "boundary q rest \<longleftrightarrow> \<not> word_opt (next_char rest)"
    by (simp add: boundary_def word_opt_def)
  from Some a b1 b2 show ?thesis by (simp add: match_here_def isolated_here_def)
qed

lemma search_from_word_edged:
  "word_edged p \<Longrightarrow> search_from p prev tx = isolated_from p prev tx"
  by (induction tx arbitrary: prev) (simp_all add: match_here_word_edged)

lemma re_search_word_edged:
  "word_edged p \<Longrightarrow> re_search_word p tx = isolated_occurrence p tx"
  by (simp add: re_search_word_def isolated_occurrence_code search_from_word_edged)

lemma word_edged_lower: "word_edged (lower s) = word_edged s"
proof (cases s)
  case Nil
  then show ?thesis by (simp add: word_edged_def lower_def)
next
  case (Cons a list)
  then have "s \<noteq> []" by simp
  then show ?thesis
    by (simp add: word_edged_def lower_def hd_map last_map is_word_lower_char)
qed

lemma base_skill_lower: "base_skill (lower s) = lower (base_skill s)"
proof -
  have "(\<lambda>c. c \<noteq> CHR ''.'') \<circ> lower_char = (\<lambda>c. c \<noteq> CHR ''.'')"
    by (rule ext) (simp add: lower_char_dot)
  then show ?thesis by (simp add: base_skill_def lower_def takeWhile_map)
qed


lemma catalog_word_edged:
  "\<forall>s \<in> set SKILLS_DATABASE.
     s \<in> {''C++'', ''C#'', ''.NET''} \<or> (word_edged s \<and> (CHR ''.'' \<in> set s \<longrightarrow> word_edged (base_skill s)))"
proof -
  have "list_all (\<lambda>s. s \<in> {''C++'', ''C#'', ''.NET''} \<or>
      (word_edged s \<and> (CHR ''.'' \<in> set s \<longrightarrow> word_edged (base_skill s)))) SKILLS_DATABASE"
    by (simp add: SKILLS_DATABASE_def word_edged_def base_skill_def is_word_char_table)
  then show ?thesis by (simp only: list_all_iff)
qed

text \<open>
  Claim C3, as amended. Every catalog entry other than \<open>C++\<close>, \<open>C#\<close> and \<open>.NET\<close>
  begins and ends with a word character, and so does the part before the first dot of a
  dotted entry. Such an entry is reported exactly when its lowercase form occurs in the
  normalized text neither preceded nor followed by a word character, or, for a dotted
  entry, when the part before its first dot occurs so.
\<close>

theorem word_boundary_matching:
  assumes "s \<in> set SKILLS_DATABASE" and "s \<notin> {''C++'', ''C#'', ''.NET''}"
  shows "s \<in> set (extract_skills (Some t)) \<longleftrightarrow>
           isolated_occurrence (lower s) (text_normalized t) \<or>
           (CHR ''.'' \<in> set s \<and> isolated_occurrence (base_skill (lower s)) (text_normalized t))"
proof -
  from assms catalog_word_edged
  have e: "word_edged s" and b: "CHR ''.'' \<in> set s \<Longrightarrow> word_edged (base_skill s)" by blast+
  from e have e': "word_edged (lower s)" by (simp add: word_edged_lower)
  have b': "word_edged (base_skill (lower s))" if "CHR ''.'' \<in> set s"
    using b[OF that] by (simp add: base_skill_lower word_edged_lower)
  let ?tn = "text_normalized t"
  have found: "skill_found ?tn s \<longleftrightarrow>
      isolated_occurrence (lower s) ?tn \<or>
      (CHR ''.'' \<in> set s \<and> isolated_occurrence (base_skill (lower s)) ?tn)"
    using b' by (auto simp: skill_found_def Let_def dot_in_lower re_search_word_edged[OF e']
        re_search_word_edged)
  have "\<not> skill_found ?tn s" if "t = []"
  proof -
    from that have "?tn = []" by (simp add: text_normalized_Nil)
    then show ?thesis by (simp add: skill_found_def Let_def re_search_word_Nil)
  qed
  then have "s \<in> set (extract_skills (Some t)) \<longleftrightarrow> skill_found ?tn s"
    using assms(1) by (auto simp: in_extract_skills)
  with found show ?thesis by simp
qed

text \<open>
  \<open>Java\<close> is not reported for "I love JavaScript"; for "I use Java daily" \<open>Java\<close> is
  reported and \<open>JavaScript\<close> is not.
\<close>

theorem word_boundary_matching_witness:
  "''Java'' \<in> set SKILLS_DATABASE \<and> ''Java'' \<notin> {''C++'', ''C#'', ''.NET''} \<and>
   ''JavaScript'' \<in> set SKILLS_DATABASE \<and> ''JavaScript'' \<notin> {''C++'', ''C#'', ''.NET''} \<and>
   ''Java'' \<notin> set (extract_skills (Some ''I love JavaScript'')) \<and>
   ''JavaScript'' \<in> set (extract_skills (Some ''I love JavaScript'')) \<and>
   ''Java'' \<in> set (extract_skills (Some ''I use Java daily'')) \<and>
   ''JavaScript'' \<notin> set (extract_skills (Some ''I use Java daily''))"
proof -
  have a1: "''Java'' \<in> set SKILLS_DATABASE" by (simp add: SKILLS_DATABASE_def)
  have a2: "''Java'' \<notin> {''C++'', ''C#'', ''.NET''}" by simp
  have b1: "''JavaScript'' \<in> set SKILLS_DATABASE" by (simp add: SKILLS_DATABASE_def)
  have b2: "''JavaScript'' \<notin> {''C++'', ''C#'', ''.NET''}" by simp
  have nd: "CHR ''.'' \<notin> set ''Java''" "CHR ''.'' \<notin> set ''JavaScript''" by simp_all
  have l: "lower ''Java'' = ''java''" "lower ''JavaScript'' = ''javascript''" by code_simp+
  have t: "text_normalized ''I love JavaScript'' = ''i love javascript''"
    "text_normalized ''I use Java daily'' = ''i use java daily''" by code_simp+
  have i1: "\<not> isolated_from ''java'' None ''i love javascript''" by code_simp
  have i2: "isolated_from ''javascript'' None ''i love javascript''" by code_simp
  have i3: "isolated_from ''java'' None ''i use java daily''" by code_simp
  have i4: "\<not> isolated_from ''javascript'' None ''i use java daily''" by code_simp
  have c1: "''Java'' \<notin> set (extract_skills (Some ''I love JavaScript''))"
    using word_boundary_matching [OF a1 a2, of "''I love JavaScript''"] nd i1
    by (simp add: l t isolated_occurrence_code)
  have c2: "''JavaScript'' \<in> set (extract_skills (Some ''I love JavaScript''))"
    using word_boundary_matching [OF b1 b2, of "''I love JavaScript''"] nd i2
    by (simp add: l t isolated_occurrence_code)
  have c3: "''Java'' \<in> set (extract_skills (Some ''I use Java daily''))"
    using word_boundary_matching [OF a1 a2, of "''I use Java daily''"] nd i3
    by (simp add: l t isolated_occurrence_code)
  have c4: "''JavaScript'' \<notin> set (extract_skills (Some ''I use Java daily''))"
    using word_boundary_matching [OF b1 b2, of "''I use Java daily''"] nd i4
    by (simp add: l t isolated_occurrence_code)
  from a1 a2 b1 b2 c1 c2 c3 c4 show ?thesis by (intro conjI)
qed

text \<open>
  The claim as stated, for every catalog entry, fails twice. By the rule for dotted
  entries \<open>React.js\<close> is reported for "I use React for frontend", where \<open>react.js\<close>
  does not occur. And \<open>C++\<close> is reported for "c++x", where the occurrence is followed by
  the word character \<open>x\<close>: the \<open>\b\<close> after the plus sign asks for one.
\<close>

theorem isolated_match_counterexample:
  "''React.js'' \<in> set (extract_skills (Some ''I use React for frontend'')) \<and>
   \<not> isolated_occurrence (lower ''React.js'') (text_normalized ''I use React for frontend'') \<and>
   ''C++'' \<in> set (extract_skills (Some ''c++x'')) \<and>
   \<not> isolated_occurrence (lower ''C++'') (text_normalized ''c++x'')"
proof -
  have a: "''React.js'' \<in> set SKILLS_DATABASE" "''C++'' \<in> set SKILLS_DATABASE"
    by (simp_all add: SKILLS_DATABASE_def)
  have b: "skill_found (text_normalized ''I use React for frontend'') ''React.js''" by code_simp
  have c: "skill_found (text_normalized ''c++x'') ''C++''" by code_simp
  have d: "\<not> isolated_from (lower ''React.js'') None (text_normalized ''I use React for frontend'')"
    by code_simp
  have e: "\<not> isolated_from (lower ''C++'') None (text_normalized ''c++x'')" by code_simp
  from a b c d e show ?thesis by (simp add: in_extract_skills isolated_occurrence_code)
qed

subsection \<open>\<open>calculate_match\<close>\<close>

lemma dict_of_apply:
  "dict_of lower xs m k = (case last_spelling xs k of Some y \<Rightarrow> Some y | None \<Rightarrow> m k)"
  by (induction xs arbitrary: m) (auto split: option.splits)

lemma dict_of_last_spelling: "dict_of lower xs Map.empty = last_spelling xs"
  by (rule ext) (simp add: dict_of_apply split: option.splits)

lemma last_spelling_Some:
  "last_spelling xs k = Some y \<Longrightarrow> y \<in> set xs \<and> lower y = k"
  by (induction xs) (auto split: option.splits if_splits)

lemma last_spelling_None: "last_spelling xs k = None \<longleftrightarrow> k \<notin> lower ` set xs"
  by (induction xs) (auto split: option.splits if_splits)

lemma last_spelling_iff:
  "last_spelling xs k = Some y \<longleftrightarrow>
     (\<exists>pre post. xs = pre @ y # post \<and> lower y = k \<and> k \<notin> lower ` set post)"
proof (induction xs)
  case Nil
  show ?case by simp
next
  case (Cons x xs)
  show ?case
  proof (cases "last_spelling xs k")
    case None
    then have notin: "k \<notin> lower ` set xs" by (simp add: last_spelling_None)
    show ?thesis
    proof
      assume "last_spelling (x # xs) k = Some y"
      with None have "lower x = k" "y = x" by (auto split: if_splits)
      with notin have "x # xs = [] @ y # xs \<and> lower y = k \<and> k \<notin> lower ` set xs" by simp
      then show "\<exists>pre post. x # xs = pre @ y # post \<and> lower y = k \<and> k \<notin> lower ` set post" by blast
    next
      assume "\<exists>pre post. x # xs = pre @ y # post \<and> lower y = k \<and> k \<notin> lower ` set post"
      then obtain pre post where h: "x # xs = pre @ y # post" "lower y = k" "k \<notin> lower ` set post" by blast
      have "pre = []"
      proof (cases pre)
        case Nil then show ?thesis .
      next
        case (Cons a pre')
        with h(1) have "xs = pre' @ y # post" by simp
        with h(2) notin show ?thesis by auto
      qed
      with h have "x = y" by simp
      with None h(2) show "last_spelling (x # xs) k = Some y" by simp
    qed
  next
    case (Some z)
    then have zin: "k \<in> lower ` set xs" using last_spelling_None[of xs k] by auto
    show ?thesis
    proof
      assume "last_spelling (x # xs) k = Some y"
      with Some have "last_spelling xs k = Some y" by simp
      with Cons.IH obtain pre post where "xs = pre @ y # post \<and> lower y = k \<and> k \<notin> lower ` set post" by blast
      then have "x # xs = (x # pre) @ y # post \<and> lower y = k \<and> k \<notin> lower ` set post" by simp
      then show "\<exists>pre post. x # xs = pre @ y # post \<and> lower y = k \<and> k \<notin> lower ` set post" by blast
    next
      assume "\<exists>pre post. x # xs = pre @ y # post \<and> lower y = k \<and> k \<notin> lower ` set post"
      then obtain pre post where h: "x # xs = pre @ y # post" "lower y = k" "k \<notin> lower ` set post" by blast
      have "pre \<noteq> []"
      proof
        assume "pre = []"
        with h(1) have "xs = post" by simp
        with h(3) zin show False by simp
      qed
      then obtain pre' where "pre = x # pre'" using h(1) by (cases pre) auto
      with h have "xs = pre' @ y # post \<and> lower y = k \<and> k \<notin> lower ` set post" by simp
      then have "last_spelling xs k = Some y" using Cons.IH by blast
      then show "last_spelling (x # xs) k = Some y" by simp
    qed
  qed
qed

lemma dom_dict_of: "dom (dict_of key xs m) = dom m \<union> key ` set xs"
  by (induction xs arbitrary: m) auto

lemma lookup_all_Inr:
  "set ks \<subseteq> dom m \<Longrightarrow> lookup_all m ks = Inr (map (\<lambda>k. the (m k)) ks)"
  by (induction ks) (auto split: option.splits)

lemma lookup_all_InrD:
  "lookup_all m ks = Inr vs \<Longrightarrow> vs = map (\<lambda>k. the (m k)) ks \<and> set ks \<subseteq> dom m"
proof (induction ks arbitrary: vs)
  case Nil
  then show ?case by simp
next
  case (Cons k ks)
  from Cons.prems obtain v vs' where mk: "m k = Some v" and rest: "lookup_all m ks = Inr vs'" and vs: "vs = v # vs'"
    by (auto split: option.splits sum.splits)
  from Cons.IH[OF rest] mk vs show ?case by auto
qed

lemma raw_score_Inr:
  "raw_score a b = Inr (if b = 0 then 0 else float_mul (binary64 (of_nat a / of_nat b)) 100)"
  by (simp add: raw_score_def true_div_def)

text \<open>The restored spellings, for a finite set of lowercase keys\<close>

lemma calculate_match_Inr:
  "calculate_match rs js =
     Inr \<lparr>score = py_round2 (if length js = 0 then 0 else float_mul (binary64 (of_nat (card (set (map lower js) \<inter> set (map lower rs))) / of_nat (length js))) 100),
          matched_skills = sort (map (\<lambda>k. the (last_spelling js k)) (sorted_list_of_set (set (map lower js) \<inter> set (map lower rs)))),
          missing_skills = sort (map (\<lambda>k. the (last_spelling js k)) (sorted_list_of_set (set (map lower js) - set (map lower rs)))),
          total_jd_skills = length js,
          total_matched = card (set (map lower js) \<inter> set (map lower rs))\<rparr>"
proof -
  let ?m = "dict_of lower js Map.empty"
  have dom: "dom ?m = set (map lower js)" by (simp add: dom_dict_of)
  have a: "lookup_all ?m (sorted_list_of_set (set (map lower js) \<inter> set (map lower rs)))
        = Inr (map (\<lambda>k. the (?m k)) (sorted_list_of_set (set (map lower js) \<inter> set (map lower rs))))"
    by (rule lookup_all_Inr) (simp add: dom)
  have b: "lookup_all ?m (sorted_list_of_set (set (map lower js) - set (map lower rs)))
        = Inr (map (\<lambda>k. the (?m k)) (sorted_list_of_set (set (map lower js) - set (map lower rs))))"
    by (rule lookup_all_Inr) (auto simp: dom)
  show ?thesis
    unfolding calculate_match_def Let_def raw_score_Inr a b
    by (simp add: dict_of_last_spelling)
qed


lemma calculate_match_fields:
  assumes "calculate_match rs js = Inr r"
  shows "score r = py_round2 (if length js = 0 then 0 else float_mul (binary64 (of_nat (card (set (map lower js) \<inter> set (map lower rs))) / of_nat (length js))) 100)"
    and "matched_skills r = sort (map (\<lambda>k. the (last_spelling js k)) (sorted_list_of_set (set (map lower js) \<inter> set (map lower rs))))"
    and "missing_skills r = sort (map (\<lambda>k. the (last_spelling js k)) (sorted_list_of_set (set (map lower js) - set (map lower rs))))"
    and "total_jd_skills r = length js"
    and "total_matched r = card (set (map lower js) \<inter> set (map lower rs))"
proof -
  have "Inr r = calculate_match rs js" using assms by simp
  then have r: "r = \<lparr>score = py_round2 (if length js = 0 then 0 else float_mul (binary64 (of_nat (card (set (map lower js) \<inter> set (map lower rs))) / of_nat (length js))) 100),
          matched_skills = sort (map (\<lambda>k. the (last_spelling js k)) (sorted_list_of_set (set (map lower js) \<inter> set (map lower rs)))),
          missing_skills = sort (map (\<lambda>k. the (last_spelling js k)) (sorted_list_of_set (set (map lower js) - set (map lower rs)))),
          total_jd_skills = length js,
          total_matched = card (set (map lower js) \<inter> set (map lower rs))\<rparr>"
    by (simp only: calculate_match_Inr sum.inject)
  show "score r = py_round2 (if length js = 0 then 0 else float_mul (binary64 (of_nat (card (set (map lower js) \<inter> set (map lower rs))) / of_nat (length js))) 100)"
    by (subst r) simp
  show "matched_skills r = sort (map (\<lambda>k. the (last_spelling js k)) (sorted_list_of_set (set (map lower js) \<inter> set (map lower rs))))"
    by (subst r) simp
  show "missing_skills r = sort (map (\<lambda>k. the (last_spelling js k)) (sorted_list_of_set (set (map lower js) - set (map lower rs))))"
    by (subst r) simp
  show "total_jd_skills r = length js"
    by (subst r) simp
  show "total_matched r = card (set (map lower js) \<inter> set (map lower rs))"
    by (subst r) simp
qed

lemma lower_the_last_spelling:
  "k \<in> lower ` set js \<Longrightarrow> lower (the (last_spelling js k)) = k \<and> the (last_spelling js k) \<in> set js
     \<and> last_spelling js k = Some (the (last_spelling js k))"
proof -
  assume "k \<in> lower ` set js"
  then obtain y where "last_spelling js k = Some y"
    using last_spelling_None[of js k] by (cases "last_spelling js k") auto
  then show ?thesis using last_spelling_Some[of js k y] by simp
qed

lemma restored_set:
  assumes "K \<subseteq> lower ` set js" "finite K"
  shows "lower ` set (sort (map (\<lambda>k. the (last_spelling js k)) (sorted_list_of_set K))) = K"
proof -
  have "lower ` (\<lambda>k. the (last_spelling js k)) ` K = K"
    using assms(1) lower_the_last_spelling[of _ js] by (auto simp: image_iff subset_iff)
  then show ?thesis using assms(2) by simp
qed

lemma restored_distinct:
  assumes "K \<subseteq> lower ` set js" "finite K"
  shows "distinct (sort (map (\<lambda>k. the (last_spelling js k)) (sorted_list_of_set K)))"
proof -
  have "inj_on (\<lambda>k. the (last_spelling js k)) K"
  proof (rule inj_onI)
    fix a b assume "a \<in> K" "b \<in> K" "the (last_spelling js a) = the (last_spelling js b)"
    then show "a = b"
      using assms(1) lower_the_last_spelling[of a js] lower_the_last_spelling[of b js]
      by (metis subsetD)
  qed
  then show ?thesis using assms(2) by (simp add: distinct_map)
qed

lemma py_round2_0: "py_round2 0 = 0"
  by (simp add: py_round2_def round_half_even_def binary64_def)

text \<open>
  Claim C6. \<open>extract_skills\<close> returns the empty list for \<open>None\<close> and for the empty
  string. \<open>calculate_match\<close> returns a result for every pair of lists: neither the
  division nor a dictionary lookup raises. With an empty job-description list the result
  has score 0.0, \<open>total_jd_skills\<close> 0 and empty matched and missing lists, whatever the
  resume list is. (\<open>extract_skills\<close> has no operation that can raise: the pattern is
  escaped, so it is always a valid pattern.)
\<close>

theorem degenerate_input_total:
  "extract_skills None = [] \<and> extract_skills (Some []) = [] \<and>
   (\<exists>r. calculate_match resume_skills jd_skills = Inr r) \<and>
   calculate_match resume_skills [] =
     Inr \<lparr>score = 0, matched_skills = [], missing_skills = [], total_jd_skills = 0, total_matched = 0\<rparr>"
proof -
  have a: "extract_skills None = [] \<and> extract_skills (Some []) = []"
    by (simp add: extract_skills_def)
  have b: "\<exists>r. calculate_match resume_skills jd_skills = Inr r"
    by (subst calculate_match_Inr) blast
  have c: "calculate_match resume_skills [] =
     Inr \<lparr>score = 0, matched_skills = [], missing_skills = [], total_jd_skills = 0, total_matched = 0\<rparr>"
    by (subst calculate_match_Inr) (simp add: py_round2_0)
  from a b c show ?thesis by blast
qed

theorem degenerate_input_total_witness:
  "extract_skills None = [] \<and> extract_skills (Some []) = [] \<and>
   (\<exists>r. calculate_match [''Python'', ''SQL''] [''Java''] = Inr r) \<and>
   calculate_match [''Python'', ''SQL''] [] =
     Inr \<lparr>score = 0, matched_skills = [], missing_skills = [], total_jd_skills = 0, total_matched = 0\<rparr>"
  using degenerate_input_total [of "[''Python'', ''SQL'']" "[''Java'']"] by simp

text \<open>
  Claim C4, as amended. The output lists carry the spelling of \<open>jd_skills\<close>, so the
  partition holds after lowercasing: the lowercase forms of the matched and of the missing
  list together are the lowercase forms of \<open>jd_skills\<close>, the first being those that are
  in the lowercase resume set and the second the others; the two output lists share no
  string, and every output string is an element of \<open>jd_skills\<close>.
\<close>

theorem matched_missing_partition:
  assumes "calculate_match resume_skills jd_skills = Inr r"
  shows "lower ` set (matched_skills r) \<union> lower ` set (missing_skills r) = lower ` set jd_skills \<and>
         lower ` set (matched_skills r) = lower ` set jd_skills \<inter> lower ` set resume_skills \<and>
         lower ` set (missing_skills r) = lower ` set jd_skills - lower ` set resume_skills \<and>
         set (matched_skills r) \<inter> set (missing_skills r) = {} \<and>
         set (matched_skills r) \<union> set (missing_skills r) \<subseteq> set jd_skills"
proof -
  let ?J = "lower ` set jd_skills" and ?R = "lower ` set resume_skills"
  let ?f = "\<lambda>k. the (last_spelling jd_skills k)"
  have m: "matched_skills r = sort (map ?f (sorted_list_of_set (?J \<inter> ?R)))"
    and n: "missing_skills r = sort (map ?f (sorted_list_of_set (?J - ?R)))"
    using calculate_match_fields[OF assms] by simp_all
  have lm: "lower ` set (matched_skills r) = ?J \<inter> ?R"
    unfolding m by (rule restored_set) auto
  have ln: "lower ` set (missing_skills r) = ?J - ?R"
    unfolding n by (rule restored_set) auto
  have disj: "set (matched_skills r) \<inter> set (missing_skills r) = {}"
  proof (rule ccontr)
    assume "set (matched_skills r) \<inter> set (missing_skills r) \<noteq> {}"
    then obtain y where "y \<in> set (matched_skills r)" "y \<in> set (missing_skills r)" by blast
    then have "lower y \<in> ?J \<inter> ?R" "lower y \<in> ?J - ?R" using lm ln by blast+
    then show False by blast
  qed
  have sub: "set (matched_skills r) \<union> set (missing_skills r) \<subseteq> set jd_skills"
    unfolding m n using lower_the_last_spelling[of _ jd_skills] by auto
  have un: "lower ` set (matched_skills r) \<union> lower ` set (missing_skills r) = ?J"
    unfolding lm ln by blast
  show ?thesis
    by (intro conjI) (rule un, rule lm, rule ln, rule disj, rule sub)
qed


text \<open>
  The claim as stated compares the output strings themselves with the lowercase forms.
  For \<open>calculate_match([], ["Python"])\<close> the union of the two output lists is
  \<open>{"Python"}\<close>, which is not \<open>{"python"}\<close>.
\<close>

theorem partition_raw_casing_counterexample:
  "calculate_match [] [''Python''] =
     Inr \<lparr>score = 0, matched_skills = [], missing_skills = [''Python''],
          total_jd_skills = 1, total_matched = 0\<rparr> \<and>
   set (matched_skills \<lparr>score = 0, matched_skills = [], missing_skills = [''Python''],
          total_jd_skills = 1, total_matched = 0\<rparr>) \<union>
   set (missing_skills \<lparr>score = 0, matched_skills = [], missing_skills = [''Python''],
          total_jd_skills = 1, total_matched = 0\<rparr>) \<noteq> set (map lower [''Python''])"
  by code_simp

theorem matched_missing_partition_witness:
  "calculate_match [''Python''] [''python'', ''SQL''] =
     Inr \<lparr>score = 50, matched_skills = [''python''], missing_skills = [''SQL''],
          total_jd_skills = 2, total_matched = 1\<rparr> \<and>
   (lower ` set (matched_skills \<lparr>score = 50, matched_skills = [''python''], missing_skills = [''SQL''],
          total_jd_skills = 2, total_matched = 1\<rparr>) \<union>
    lower ` set (missing_skills \<lparr>score = 50, matched_skills = [''python''], missing_skills = [''SQL''],
          total_jd_skills = 2, total_matched = 1\<rparr>) = lower ` set [''python'', ''SQL''] \<and>
    lower ` set (matched_skills \<lparr>score = 50, matched_skills = [''python''], missing_skills = [''SQL''],
          total_jd_skills = 2, total_matched = 1\<rparr>) = lower ` set [''python'', ''SQL''] \<inter> lower ` set [''Python''] \<and>
    lower ` set (missing_skills \<lparr>score = 50, matched_skills = [''python''], missing_skills = [''SQL''],
          total_jd_skills = 2, total_matched = 1\<rparr>) = lower ` set [''python'', ''SQL''] - lower ` set [''Python''] \<and>
    set (matched_skills \<lparr>score = 50, matched_skills = [''python''], missing_skills = [''SQL''],
          total_jd_skills = 2, total_matched = 1\<rparr>) \<inter>
    set (missing_skills \<lparr>score = 50, matched_skills = [''python''], missing_skills = [''SQL''],
          total_jd_skills = 2, total_matched = 1\<rparr>) = {} \<and>
    set (matched_skills \<lparr>score = 50, matched_skills = [''python''], missing_skills = [''SQL''],
          total_jd_skills = 2, total_matched = 1\<rparr>) \<union>
    set (missing_skills \<lparr>score = 50, matched_skills = [''python''], missing_skills = [''SQL''],
          total_jd_skills = 2, total_matched = 1\<rparr>) \<subseteq> set [''python'', ''SQL''])"
proof -
  have h: "calculate_match [''Python''] [''python'', ''SQL''] =
     Inr \<lparr>score = 50, matched_skills = [''python''], missing_skills = [''SQL''],
          total_jd_skills = 2, total_matched = 1\<rparr>"
    by code_simp
  from h matched_missing_partition [OF h] show ?thesis by (rule conjI)
qed

text \<open>
  Claim C7. Both output lists are sorted in the code-point order of strings. Every output
  string \<open>y\<close> is an element of \<open>jd_skills\<close>, spelled as it is there, and it is the last
  element of \<open>jd_skills\<close> with its lowercase form (no later element has the same lowercase
  form): the last spelling seen wins.
\<close>

theorem casing_restoration_sorted:
  assumes "calculate_match resume_skills jd_skills = Inr r"
  shows "sorted (matched_skills r) \<and> sorted (missing_skills r) \<and>
         (\<forall>y \<in> set (matched_skills r) \<union> set (missing_skills r).
            \<exists>pre post. jd_skills = pre @ y # post \<and> lower y \<notin> lower ` set post)"
proof -
  let ?J = "lower ` set jd_skills" and ?R = "lower ` set resume_skills"
  let ?f = "\<lambda>k. the (last_spelling jd_skills k)"
  have m: "matched_skills r = sort (map ?f (sorted_list_of_set (?J \<inter> ?R)))"
    and n: "missing_skills r = sort (map ?f (sorted_list_of_set (?J - ?R)))"
    using calculate_match_fields[OF assms] by simp_all
  have s1: "sorted (matched_skills r)" unfolding m by simp
  have s2: "sorted (missing_skills r)" unfolding n by simp
  have key: "\<exists>pre post. jd_skills = pre @ ?f k # post \<and> lower (?f k) \<notin> lower ` set post"
    if "k \<in> ?J" for k
  proof -
    from lower_the_last_spelling[OF that]
    have a: "lower (?f k) = k" and b: "last_spelling jd_skills k = Some (?f k)" by simp_all
    from b obtain pre post where "jd_skills = pre @ ?f k # post" "k \<notin> lower ` set post"
      unfolding last_spelling_iff by blast
    with a show ?thesis by auto
  qed
  have all: "\<forall>y \<in> set (matched_skills r) \<union> set (missing_skills r).
            \<exists>pre post. jd_skills = pre @ y # post \<and> lower y \<notin> lower ` set post"
  proof
    fix y assume "y \<in> set (matched_skills r) \<union> set (missing_skills r)"
    then obtain k where "k \<in> ?J" "y = ?f k" unfolding m n by auto
    with key[of k] show "\<exists>pre post. jd_skills = pre @ y # post \<and> lower y \<notin> lower ` set post"
      by simp
  qed
  show ?thesis by (intro conjI) (rule s1, rule s2, rule all)
qed

text \<open>
  Two spellings of one skill: the later one is returned, whatever the resume spells.
  Capital letters sort before small ones.
\<close>

theorem casing_restoration_sorted_witness:
  "calculate_match [''PYTHON''] [''python'', ''sql'', ''Python'', ''Zig''] =
     Inr \<lparr>score = 25, matched_skills = [''Python''], missing_skills = [''Zig'', ''sql''],
          total_jd_skills = 4, total_matched = 1\<rparr> \<and>
   sorted [''Python''] \<and> sorted [''Zig'', ''sql''] \<and>
   (\<exists>pre post. [''python'', ''sql'', ''Python'', ''Zig''] = pre @ ''Python'' # post \<and>
      lower ''Python'' \<notin> lower ` set post)"
proof -
  let ?r = "\<lparr>score = 25, matched_skills = [''Python''], missing_skills = [''Zig'', ''sql''],
          total_jd_skills = 4, total_matched = 1\<rparr>"
  have h: "calculate_match [''PYTHON''] [''python'', ''sql'', ''Python'', ''Zig''] = Inr ?r"
    by code_simp
  note t = casing_restoration_sorted [OF h]
  from t have s1: "sorted [''Python'']" by simp
  from t have s2: "sorted (missing_skills ?r)" by blast
  then have s2': "sorted [''Zig'', ''sql'']" by simp
  from t have all: "\<forall>y \<in> set (matched_skills ?r) \<union> set (missing_skills ?r).
      \<exists>pre post. [''python'', ''sql'', ''Python'', ''Zig''] = pre @ y # post \<and> lower y \<notin> lower ` set post"
    by blast
  have "''Python'' \<in> set (matched_skills ?r) \<union> set (missing_skills ?r)" by simp
  from bspec [OF all this]
  have e: "\<exists>pre post. [''python'', ''sql'', ''Python'', ''Zig''] = pre @ ''Python'' # post \<and>
      lower ''Python'' \<notin> lower ` set post" .
  from h s1 s2' e show ?thesis by blast
qed

subsection \<open>The keys of the catalog\<close>

lemma codes_distinct: "distinct (map (\<lambda>s. str_code (lower s)) catalog_once)"
  by (simp add: catalog_once_def SKILLS_DATABASE_def lower_def lower_char_table cp_table)

lemma catalog_split:
  "SKILLS_DATABASE =
     take 105 SKILLS_DATABASE @ ''DynamoDB'' # take 129 (drop 106 SKILLS_DATABASE) @
     ''GraphQL'' # drop 236 SKILLS_DATABASE"
  by (simp add: SKILLS_DATABASE_def)

lemma duplicates_in_once: "''DynamoDB'' \<in> set (take 105 SKILLS_DATABASE)"
  "''GraphQL'' \<in> set (take 129 (drop 106 SKILLS_DATABASE))"
  by (simp_all add: SKILLS_DATABASE_def)

lemma set_catalog_once: "set catalog_once = set SKILLS_DATABASE"
proof -
  have "set SKILLS_DATABASE =
     set (take 105 SKILLS_DATABASE @ ''DynamoDB'' # take 129 (drop 106 SKILLS_DATABASE) @
       ''GraphQL'' # drop 236 SKILLS_DATABASE)"
    using catalog_split by simp
  also have "\<dots> = set catalog_once"
    using duplicates_in_once by (auto simp: catalog_once_def)
  finally show ?thesis by simp
qed

lemma inj_on_lower_catalog: "inj_on lower (set SKILLS_DATABASE)"
proof -
  have "(\<lambda>s. str_code (lower s)) = str_code \<circ> lower" by (simp add: comp_def)
  with codes_distinct have "inj_on (str_code \<circ> lower) (set catalog_once)"
    by (simp add: distinct_map)
  then have "inj_on lower (set catalog_once)" by (rule inj_on_imageI2)
  then show ?thesis by (simp add: set_catalog_once)
qed

text \<open>
  Claim C1, as amended. Two catalog entries that have the same lowercase key are the same
  string, so the lookup maps the lowercase form of every catalog entry to that entry, and
  its keys are the lowercase forms of the catalog entries.
\<close>

theorem catalog_lookup_keys:
  "inj_on lower (set SKILLS_DATABASE) \<and>
   (\<forall>s \<in> set SKILLS_DATABASE. SKILLS_LOOKUP (lower s) = Some s) \<and>
   dom SKILLS_LOOKUP = lower ` set SKILLS_DATABASE"
proof -
  have look: "SKILLS_LOOKUP = last_spelling SKILLS_DATABASE"
    by (simp add: SKILLS_LOOKUP_def dict_of_last_spelling)
  have b: "\<forall>s \<in> set SKILLS_DATABASE. SKILLS_LOOKUP (lower s) = Some s"
  proof
    fix s assume s: "s \<in> set SKILLS_DATABASE"
    then have "lower s \<in> lower ` set SKILLS_DATABASE" by simp
    from lower_the_last_spelling[OF this]
    obtain y where y: "last_spelling SKILLS_DATABASE (lower s) = Some y" "y \<in> set SKILLS_DATABASE"
      "lower y = lower s" by metis
    from y(2,3) s have "y = s" using inj_on_lower_catalog by (auto dest: inj_onD)
    with y(1) show "SKILLS_LOOKUP (lower s) = Some s" by (simp add: look)
  qed
  have c: "dom SKILLS_LOOKUP = lower ` set SKILLS_DATABASE"
    by (simp add: SKILLS_LOOKUP_def dom_dict_of)
  from inj_on_lower_catalog b c show ?thesis by (intro conjI)
qed

theorem catalog_lookup_keys_witness:
  "SKILLS_LOOKUP ''dynamodb'' = Some ''DynamoDB'' \<and> SKILLS_LOOKUP ''c++'' = Some ''C++''"
proof -
  have m: "''DynamoDB'' \<in> set SKILLS_DATABASE" "''C++'' \<in> set SKILLS_DATABASE"
    by (simp_all add: SKILLS_DATABASE_def)
  have l: "lower ''DynamoDB'' = ''dynamodb''" "lower ''C++'' = ''c++''" by code_simp+
  from catalog_lookup_keys have "\<forall>s \<in> set SKILLS_DATABASE. SKILLS_LOOKUP (lower s) = Some s"
    by blast
  from bspec[OF this m(1)] bspec[OF this m(2)] show ?thesis by (simp add: l)
qed

text \<open>
  The claim as stated fails: the catalog has \<open>DynamoDB\<close> at the positions 80 and 105 (and
  \<open>GraphQL\<close> at 150 and 235), so two entries have the same key and the lookup has fewer
  keys than the catalog has entries. The dict comprehension checks nothing: \<open>dict_of\<close>
  overwrites.
\<close>

theorem catalog_key_collision_counterexample:
  "SKILLS_DATABASE ! 80 = ''DynamoDB'' \<and> SKILLS_DATABASE ! 105 = ''DynamoDB'' \<and>
   \<not> distinct (map lower SKILLS_DATABASE) \<and>
   card (dom SKILLS_LOOKUP) < length SKILLS_DATABASE"
proof -
  have a: "SKILLS_DATABASE ! 80 = ''DynamoDB''" and b: "SKILLS_DATABASE ! 105 = ''DynamoDB''"
    by (simp_all add: SKILLS_DATABASE_def)
  have len: "length SKILLS_DATABASE = 272" by (simp add: SKILLS_DATABASE_def)
  have nd: "\<not> distinct (map lower SKILLS_DATABASE)"
  proof
    assume "distinct (map lower SKILLS_DATABASE)"
    then have "map lower SKILLS_DATABASE ! 80 \<noteq> map lower SKILLS_DATABASE ! 105"
      using len by (simp add: distinct_conv_nth)
    with a b len show False by simp
  qed
  have "dom SKILLS_LOOKUP = set (map lower SKILLS_DATABASE)"
    by (simp add: SKILLS_LOOKUP_def dom_dict_of)
  moreover have "card (set (map lower SKILLS_DATABASE)) \<noteq> length (map lower SKILLS_DATABASE)"
    using nd card_distinct by blast
  moreover have "card (set (map lower SKILLS_DATABASE)) \<le> length (map lower SKILLS_DATABASE)"
    by (rule card_length)
  ultimately have c: "card (dom SKILLS_LOOKUP) < length SKILLS_DATABASE" by simp
  from a b nd c show ?thesis by (intro conjI)
qed

subsection \<open>\<open>get_skill_suggestions\<close>\<close>

lemma suggestions_loop_map: "suggestions_loop skills acc = acc @ map suggestion skills"
  by (induction skills arbitrary: acc) auto

lemma truthy_find_category:
  "\<forall>(name, members) \<in> set cats. name \<noteq> [] \<Longrightarrow>
   truthy (find_category k cats) \<longleftrightarrow> (\<exists>(name, members) \<in> set cats. \<exists>s \<in> set members. k = lower s)"
proof (induction cats)
  case Nil
  show ?case by (simp add: truthy_def)
next
  case (Cons c cats)
  obtain n ms where c: "c = (n, ms)" by (cases c)
  from Cons.prems have n: "n \<noteq> []" and rest: "\<forall>(name, members) \<in> set cats. name \<noteq> []"
    by (auto simp: c)
  show ?case
  proof (cases "list_ex (\<lambda>s. k = lower s) ms")
    case True
    then have "truthy (find_category k (c # cats))" by (simp add: c truthy_def n)
    moreover from True have "\<exists>(name, members) \<in> set (c # cats). \<exists>s \<in> set members. k = lower s"
      by (auto simp: c list_ex_iff)
    ultimately show ?thesis by blast
  next
    case False
    then have "find_category k (c # cats) = find_category k cats" by (simp add: c)
    moreover from False have "(\<exists>(name, members) \<in> set (c # cats). \<exists>s \<in> set members. k = lower s)
        \<longleftrightarrow> (\<exists>(name, members) \<in> set cats. \<exists>s \<in> set members. k = lower s)"
      by (auto simp: c list_ex_iff)
    ultimately show ?thesis using Cons.IH[OF rest] by simp
  qed
qed

text \<open>
  Claim C9. \<open>get_skill_suggestions\<close> maps each input skill, in the order of the input, to
  one string: "Learn ... through online courses or projects" when the lowercase skill is
  the lowercase form of a member of one of the four categories (frontend, backend,
  database, cloud), and "Consider gaining experience with ..." otherwise.
\<close>

theorem suggestion_per_skill:
  "get_skill_suggestions skills =
     map (\<lambda>skill.
            if \<exists>(name, members) \<in> set skill_categories. \<exists>s \<in> set members. lower skill = lower s
            then ''Learn '' @ skill @ '' through online courses or projects''
            else ''Consider gaining experience with '' @ skill) skills \<and>
   map fst skill_categories = [''frontend'', ''backend'', ''database'', ''cloud'']"
proof -
  have ne: "\<forall>(name, members) \<in> set skill_categories. name \<noteq> []"
    by (simp add: skill_categories_def)
  have "suggestion skill =
     (if \<exists>(name, members) \<in> set skill_categories. \<exists>s \<in> set members. lower skill = lower s
      then ''Learn '' @ skill @ '' through online courses or projects''
      else ''Consider gaining experience with '' @ skill)" for skill
    unfolding suggestion_def Let_def truthy_find_category[OF ne] by simp
  then have a: "get_skill_suggestions skills =
     map (\<lambda>skill.
            if \<exists>(name, members) \<in> set skill_categories. \<exists>s \<in> set members. lower skill = lower s
            then ''Learn '' @ skill @ '' through online courses or projects''
            else ''Consider gaining experience with '' @ skill) skills"
    by (simp add: get_skill_suggestions_def suggestions_loop_map)
  have b: "map fst skill_categories = [''frontend'', ''backend'', ''database'', ''cloud'']"
    by (simp add: skill_categories_def)
  from a b show ?thesis by (rule conjI)
qed

theorem suggestion_per_skill_witness:
  "get_skill_suggestions [''React'', ''Haskell'', ''aws''] =
     [''Learn React through online courses or projects'',
      ''Consider gaining experience with Haskell'',
      ''Learn aws through online courses or projects'']"
proof -
  have a: "(\<exists>(name, members) \<in> set skill_categories. \<exists>s \<in> set members. lower ''React'' = lower s) = True"
    by code_simp
  have b: "(\<exists>(name, members) \<in> set skill_categories. \<exists>s \<in> set members. lower ''Haskell'' = lower s) = False"
    by code_simp
  have c: "(\<exists>(name, members) \<in> set skill_categories. \<exists>s \<in> set members. lower ''aws'' = lower s) = True"
    by code_simp
  from suggestion_per_skill [of "[''React'', ''Haskell'', ''aws'']"]
  show ?thesis unfolding list.map a b c by simp
qed

end
